theory Spec2Isabelle
  imports
    Complex_Main
    "HOL-Library.Char_ord"
    "HOL-Library.List_Lexorder"
    "HOL-Library.Product_Lexorder"
    "HOL-Library.Multiset"
begin

section \<open>Decoded records and the Python operations applied to them\<close>

text \<open>
  The three functions of \<open>preprocessing/metadata.py\<close> read an iterable of JSON lines,
  build a table from them and hand it to pandas. A line is represented by what
  \<open>json.loads\<close> makes of it: \<open>None\<close> when the text is not JSON, the decoded value
  otherwise. An object is an association list; \<open>map_of\<close> reads it as the dictionary.
\<close>

datatype json =
    JNull
  | JBool bool
  | JInt int
  | JFloat real
  | JStr string
  | JArr "json list"
  | JObj "(string \<times> json) list"

text \<open>
  The exceptions a run can end with. \<open>DecodeError\<close>, \<open>KeyError\<close>, \<open>TypeError\<close> and
  \<open>ValueError\<close> are raised by the Python of the source file itself;
  \<open>InvalidTimestamp\<close> and \<open>InvalidBinWidth\<close> stand for whatever pandas raises on a
  timestamp that is not a number or does not fit its 64 bits of nanoseconds, and on a
  bin width that is not a positive duration.
\<close>

datatype error =
    DecodeError
  | KeyError string
  | TypeError
  | ValueError
  | InvalidTimestamp
  | InvalidBinWidth

text \<open>Sequencing of steps that may raise: the first exception ends the run.\<close>

definition and_then :: "error + 'a \<Rightarrow> ('a \<Rightarrow> error + 'b) \<Rightarrow> error + 'b" where
  "and_then r f = (case r of Inl e \<Rightarrow> Inl e | Inr x \<Rightarrow> f x)"

fun traverse :: "('a \<Rightarrow> error + 'b) \<Rightarrow> 'a list \<Rightarrow> error + 'b list" where
  "traverse f [] = Inr []"
| "traverse f (x # xs) = and_then (f x) (\<lambda>y. and_then (traverse f xs) (\<lambda>ys. Inr (y # ys)))"

definition loads :: "json option \<Rightarrow> error + json" where
  "loads line = (case line of None \<Rightarrow> Inl DecodeError | Some j \<Rightarrow> Inr j)"

text \<open>\<open>obj[key]\<close> with a string key: a lookup in a dictionary, a TypeError on anything else.\<close>

definition getitem :: "json \<Rightarrow> string \<Rightarrow> error + json" where
  "getitem j k =
     (case j of
        JObj kvs \<Rightarrow> (case map_of kvs k of None \<Rightarrow> Inl (KeyError k) | Some v \<Rightarrow> Inr v)
      | _ \<Rightarrow> Inl TypeError)"

text \<open>\<open>len(x)\<close>: defined on sequences, strings and dictionaries.\<close>

definition len :: "json \<Rightarrow> error + int" where
  "len j =
     (case j of
        JArr xs \<Rightarrow> Inr (int (length xs))
      | JStr s \<Rightarrow> Inr (int (length s))
      | JObj kvs \<Rightarrow> Inr (int (length (remdups (map fst kvs))))
      | _ \<Rightarrow> Inl TypeError)"

text \<open>
  \<open>str(x)\<close> returns a string unchanged. How Python prints a number, a list or a
  dictionary is not part of this repository: it is the parameter \<open>render\<close>.
\<close>

definition str :: "(json \<Rightarrow> string) \<Rightarrow> json \<Rightarrow> string" where
  "str render j = (case j of JStr s \<Rightarrow> s | _ \<Rightarrow> render j)"

text \<open>
  \<open>float(x)\<close>: a number is itself, a string is parsed (the parser is the parameter
  \<open>parse\<close>, \<open>None\<close> where Python raises ValueError). Voltages are exact reals here:
  the rounding of IEEE doubles is not modelled.
\<close>

definition float :: "(string \<Rightarrow> real option) \<Rightarrow> json \<Rightarrow> error + real" where
  "float parse j =
     (case j of
        JInt n \<Rightarrow> Inr (real_of_int n)
      | JFloat r \<Rightarrow> Inr r
      | JBool b \<Rightarrow> Inr (if b then 1 else 0)
      | JStr s \<Rightarrow> (case parse s of None \<Rightarrow> Inl ValueError | Some r \<Rightarrow> Inr r)
      | _ \<Rightarrow> Inl TypeError)"

section \<open>The pandas operations the source calls\<close>

text \<open>
  An instant is pandas' \<open>datetime64[ns]\<close>: a signed 64-bit number of nanoseconds since
  the epoch. \<open>pd.to_datetime(column, unit='s', utc=True)\<close> reads a number of seconds,
  rounds it to the nanosecond and raises when the result does not fit.
  \<open>tz_localize('UTC')\<close> and \<open>tz_convert(tz)\<close> change the zone an instant is printed in
  and leave the instant, and so the order of two instants, as they are.
\<close>

type_synonym datetime = int

definition in_bounds :: "int \<Rightarrow> error + datetime" where
  "in_bounds n =
     (if - 9223372036854775808 < n \<and> n < 9223372036854775808 then Inr n
      else Inl InvalidTimestamp)"

definition to_datetime :: "json \<Rightarrow> error + datetime" where
  "to_datetime j =
     (case j of
        JInt n \<Rightarrow> in_bounds (n * 1000000000)
      | JFloat r \<Rightarrow> in_bounds (round (r * 1000000000))
      | _ \<Rightarrow> Inl InvalidTimestamp)"

text \<open>
  The zone \<open>tz\<close> matters in one place: pandas anchors a grid of bins at the start of a
  local day. The zone is therefore given as the function that sends an instant to the
  local midnight of its day (\<open>Timestamp.normalize\<close>); the rules of a named zone come
  from the time zone database and are not part of this repository. \<open>utc_midnight\<close> is
  that function for UTC.
\<close>

type_synonym zone = "datetime \<Rightarrow> datetime"

definition utc_midnight :: zone where
  "utc_midnight t = 86400000000000 * (t div 86400000000000)"

text \<open>
  A bin of width \<open>time_bins_size\<close> (in nanoseconds) is closed on the left and labelled
  with its start; \<open>time_bin origin\<close> labels an instant on the grid through \<open>origin\<close>.
  \<open>pd.TimeGrouper(time_bins_size, key='datetime')\<close> anchors the grid at the local
  midnight of the day of the earliest instant of the column it is given.
\<close>

definition time_bin :: "datetime \<Rightarrow> int \<Rightarrow> datetime \<Rightarrow> datetime" where
  "time_bin origin time_bins_size t =
     origin + time_bins_size * ((t - origin) div time_bins_size)"

definition TimeGrouper :: "int \<Rightarrow> zone \<Rightarrow> datetime list \<Rightarrow> datetime \<Rightarrow> datetime" where
  "TimeGrouper time_bins_size tz datetimes t =
     time_bin (tz (Min (set datetimes))) time_bins_size t"

definition one_min :: int where
  "one_min = 60000000000"

text \<open>
  \<open>groupby(keys)\<close>: one group per distinct key, the groups in ascending key order, the
  rows of a group in the order of the table.
\<close>

definition groupby :: "('k::linorder \<times> 'v) list \<Rightarrow> ('k \<times> 'v list) list" where
  "groupby rows =
     map (\<lambda>k. (k, map snd (filter (\<lambda>r. fst r = k) rows))) (sort (remdups (map fst rows)))"

text \<open>
  The two reductions. A missing value (pandas' NaN) is \<open>None\<close>; \<open>first\<close> is the first
  value of the group in table order, \<open>mean\<close> the sum divided by the count.
\<close>

definition first :: "'v list \<Rightarrow> 'v option" where
  "first vs = (case vs of [] \<Rightarrow> None | v # _ \<Rightarrow> Some v)"

definition mean :: "real list \<Rightarrow> real option" where
  "mean vs = (if vs = [] then None else Some (sum_list vs / real (length vs)))"

definition agg :: "('v list \<Rightarrow> 'w option) \<Rightarrow> ('k \<times> 'v list) list \<Rightarrow> ('k \<times> 'w option) list" where
  "agg f groups = map (\<lambda>(k, vs). (k, f vs)) groups"

text \<open>\<open>sort_index\<close>: the rows in ascending order of their key.\<close>

definition sort_index :: "('k::linorder \<times> 'v) list \<Rightarrow> ('k \<times> 'v) list" where
  "sort_index rows = sort_key fst rows"

text \<open>
  \<open>resample(time_bins_size).fillna(method='ffill')\<close> on one group. The new index is
  the grid of the bin width anchored at the local midnight of the day of the group's
  own earliest instant, from the bin of that instant to the last grid point not after
  the group's latest instant. Each new label takes the value of the last row at or
  before it, \<open>None\<close> (NaN) if there is none.
\<close>

definition date_range :: "datetime \<Rightarrow> datetime \<Rightarrow> int \<Rightarrow> datetime list" where
  "date_range lo hi w = map (\<lambda>k. lo + int k * w) [0 ..< nat ((hi - lo) div w + 1)]"

definition ffill :: "(datetime \<times> 'v option) list \<Rightarrow> datetime \<Rightarrow> 'v option" where
  "ffill g t = (case filter (\<lambda>r. fst r \<le> t) g of [] \<Rightarrow> None | r # rs \<Rightarrow> snd (last (r # rs)))"

definition resample_ffill ::
  "(datetime \<times> 'v option) list \<Rightarrow> int \<Rightarrow> zone \<Rightarrow> (datetime \<times> 'v option) list" where
  "resample_ffill g w tz =
     (if g = [] then []
      else
        let lo = Min (set (map fst g)); hi = Max (set (map fst g))
        in map (\<lambda>t. (t, ffill g t)) (date_range (time_bin (tz lo) w lo) hi w))"

section \<open>The identity pipeline\<close>

type_synonym 'i idmap = "((datetime \<times> 'i) \<times> string option) list"

text \<open>
  The index of \<open>idmap\<close> carries its zone in the source; here the zone is passed along.
  The source has no branch for an empty stream, and what pandas does with an empty
  frame is not modelled: on an empty stream the definitions below give the empty table,
  which says nothing about pandas.
\<close>

definition id_to_member_mapping_fill_gaps ::
  "('i::linorder) idmap \<Rightarrow> int \<Rightarrow> zone \<Rightarrow> 'i idmap" where
  "id_to_member_mapping_fill_gaps idmap time_bins_size tz =
     (let df = map (\<lambda>((dt, i), m). (i, (dt, m))) idmap;
          s = concat (map (\<lambda>(i, g). map (\<lambda>(dt, m). ((i, dt), m))
                                     (resample_ffill g time_bins_size tz))
                        (groupby df))
      in sort_index (map (\<lambda>((i, dt), m). ((dt, i), m)) s))"

text \<open>
  \<open>mac_address_to_id\<close> lives in \<open>core.py\<close>, outside this file: it is a parameter, as a
  function that may raise.
\<close>

definition readfile_id ::
  "(json \<Rightarrow> error + 'i) \<Rightarrow> (json \<Rightarrow> string) \<Rightarrow> json option \<Rightarrow> error + (json \<times> 'i \<times> string)" where
  "readfile_id mac_address_to_id render line =
     and_then (loads line) (\<lambda>raw.
     and_then (getitem raw ''data'') (\<lambda>data.
     and_then (getitem data ''timestamp'') (\<lambda>ts.
     and_then (getitem data ''badge_address'') (\<lambda>addr.
     and_then (mac_address_to_id addr) (\<lambda>i.
     and_then (getitem data ''member'') (\<lambda>m.
     Inr (ts, i, str render m)))))))"

definition with_datetime :: "json \<times> 'r \<Rightarrow> error + (datetime \<times> 'r)" where
  "with_datetime row = and_then (to_datetime (fst row)) (\<lambda>dt. Inr (dt, snd row))"

definition id_to_member_mapping ::
  "(json \<Rightarrow> error + 'i::linorder) \<Rightarrow> (json \<Rightarrow> string) \<Rightarrow> json option list \<Rightarrow> int \<Rightarrow> zone
     \<Rightarrow> bool \<Rightarrow> error + 'i idmap" where
  "id_to_member_mapping mac_address_to_id render fileobject time_bins_size tz fill_gaps =
     and_then (traverse (readfile_id mac_address_to_id render) fileobject) (\<lambda>rows.
     and_then (traverse with_datetime rows) (\<lambda>df.
     if time_bins_size \<le> 0 then Inl InvalidBinWidth
     else
       let bin = TimeGrouper time_bins_size tz (map fst df);
           df = agg first (groupby (map (\<lambda>(dt, i, m). ((bin dt, i), m)) df));
           s = sort_index df
       in Inr (if fill_gaps then id_to_member_mapping_fill_gaps s time_bins_size tz else s)))"

section \<open>The voltage pipeline\<close>

definition readfile_voltage ::
  "(json \<Rightarrow> string) \<Rightarrow> (string \<Rightarrow> real option) \<Rightarrow> json option \<Rightarrow> error + (json \<times> string \<times> real)" where
  "readfile_voltage render parse line =
     and_then (loads line) (\<lambda>raw.
     and_then (getitem raw ''data'') (\<lambda>data.
     and_then (getitem data ''timestamp'') (\<lambda>ts.
     and_then (getitem data ''member'') (\<lambda>m.
     and_then (getitem data ''voltage'') (\<lambda>v.
     and_then (float parse v) (\<lambda>x.
     Inr (ts, str render m, x)))))))"

definition voltages ::
  "(json \<Rightarrow> string) \<Rightarrow> (string \<Rightarrow> real option) \<Rightarrow> json option list \<Rightarrow> int \<Rightarrow> zone
     \<Rightarrow> error + ((datetime \<times> string) \<times> real option) list" where
  "voltages render parse fileobject time_bins_size tz =
     and_then (traverse (readfile_voltage render parse) fileobject) (\<lambda>rows.
     and_then (traverse with_datetime rows) (\<lambda>df.
     if time_bins_size \<le> 0 then Inl InvalidBinWidth
     else
       let bin = TimeGrouper time_bins_size tz (map fst df)
       in Inr (sort_index
            (agg mean (groupby (map (\<lambda>(dt, m, v). ((bin dt, m), v)) df))))))"

section \<open>The count pipeline\<close>

text \<open>
  \<open>sample_counts\<close> takes \<open>tz\<close> and \<open>keep_type\<close> and no bin width. It builds no grid, so
  the zone, which only changes how an instant is printed, is not an argument here.
  The index of the result is \<open>(datetime, type, member)\<close> when \<open>keep_type\<close> is set and
  \<open>(datetime, member)\<close> otherwise. Both are written as the instant and the list of the
  remaining labels: lists of one length are ordered as the tuples are.
\<close>

definition readfile_count ::
  "(json \<Rightarrow> string) \<Rightarrow> json option \<Rightarrow> error + (json \<times> string \<times> string \<times> int)" where
  "readfile_count render line =
     and_then (loads line) (\<lambda>raw_data.
     and_then (getitem raw_data ''data'') (\<lambda>data.
     and_then (getitem raw_data ''type'') (\<lambda>type.
     and_then (if type = JStr ''proximity received'' then
            and_then (getitem data ''rssi_distances'') len
          else if type = JStr ''audio received'' then
            and_then (getitem data ''samples'') len
          else Inr (- 1)) (\<lambda>cnt.
     and_then (getitem data ''timestamp'') (\<lambda>ts.
     and_then (getitem data ''member'') (\<lambda>m.
     Inr (ts, str render type, str render m, cnt)))))))"

definition sample_counts ::
  "(json \<Rightarrow> string) \<Rightarrow> json option list \<Rightarrow> bool
     \<Rightarrow> error + ((datetime \<times> string list) \<times> int) list" where
  "sample_counts render fileobject keep_type =
     and_then (traverse (readfile_count render) fileobject) (\<lambda>rows.
     and_then (traverse with_datetime rows) (\<lambda>df.
     Inr (sort_index
       (map (\<lambda>(dt, type, m, cnt). ((dt, if keep_type then [type, m] else [m]), cnt)) df))))"

section \<open>Auxiliary notions for the statements\<close>

text \<open>
  These notions are not in the source; they name what the statements speak about.
  \<open>device_rows d idmap\<close> are the rows of device \<open>d\<close> in a table. \<open>id_records\<close> and
  \<open>voltage_records\<close> are the decoded records of a stream, in stream order, before any
  binning. \<open>observed bin df\<close> is the identity table before gap filling. \<open>count_row\<close>
  is the row that \<open>sample_counts\<close> makes of one record. \<open>group_voltages bin df k\<close>
  lists, in stream order, the voltages of the records whose bin and wearer are \<open>k\<close>:
  the group of a key as the specification words it, against which the table computed
  by \<open>voltages\<close> is compared.
\<close>

definition device_rows :: "'i \<Rightarrow> 'i idmap \<Rightarrow> (datetime \<times> string option) list" where
  "device_rows d idmap = map (\<lambda>r. (fst (fst r), snd r)) (filter (\<lambda>r. snd (fst r) = d) idmap)"

definition id_records ::
  "(json \<Rightarrow> error + 'i) \<Rightarrow> (json \<Rightarrow> string) \<Rightarrow> json option list
     \<Rightarrow> error + (datetime \<times> 'i \<times> string) list" where
  "id_records mac render fo =
     and_then (traverse (readfile_id mac render) fo) (traverse with_datetime)"

definition observed ::
  "(datetime \<Rightarrow> datetime) \<Rightarrow> (datetime \<times> 'i \<times> string) list \<Rightarrow> ('i::linorder) idmap" where
  "observed bin df = agg first (groupby (map (\<lambda>(dt, i, m). ((bin dt, i), m)) df))"

definition count_row :: "bool \<Rightarrow> datetime \<times> string \<times> string \<times> int \<Rightarrow> (datetime \<times> string list) \<times> int" where
  "count_row keep_type r =
     (case r of (dt, type, m, cnt) \<Rightarrow> ((dt, if keep_type then [type, m] else [m]), cnt))"

definition voltage_records ::
  "(json \<Rightarrow> string) \<Rightarrow> (string \<Rightarrow> real option) \<Rightarrow> json option list
     \<Rightarrow> error + (datetime \<times> string \<times> real) list" where
  "voltage_records render parse fo =
     and_then (traverse (readfile_voltage render parse) fo) (traverse with_datetime)"


definition seven_min :: int where
  "seven_min = 420000000000"

definition example_mac :: "json \<Rightarrow> error + string" where
  "example_mac j = (case j of JStr s \<Rightarrow> Inr s | _ \<Rightarrow> Inl TypeError)"

definition example_render :: "json \<Rightarrow> string" where
  "example_render j = ''?''"

definition id_line :: "int \<Rightarrow> string \<Rightarrow> string \<Rightarrow> json option" where
  "id_line ts addr m =
     Some (JObj [(''type'', JStr ''proximity received''),
                 (''data'', JObj [(''timestamp'', JInt ts), (''badge_address'', JStr addr),
                                  (''member'', JStr m)])])"

definition example_stream :: "json option list" where
  "example_stream = [id_line 1000 ''d1'' ''A'', id_line 1010 ''d1'' ''B'',
                     id_line 1200 ''d1'' ''C'', id_line 1100 ''d0'' ''Z'']"

definition count_line :: "string \<Rightarrow> int \<Rightarrow> string \<Rightarrow> (string \<times> json) list \<Rightarrow> json option" where
  "count_line type ts m payload =
     Some (JObj [(''type'', JStr type),
                 (''data'', JObj ((''timestamp'', JInt ts) # (''member'', JStr m) # payload))])"

definition example_parse :: "string \<Rightarrow> real option" where
  "example_parse s = None"

definition voltage_line :: "int \<Rightarrow> string \<Rightarrow> json \<Rightarrow> json option" where
  "voltage_line ts m v =
     Some (JObj [(''type'', JStr ''voltage''),
                 (''data'', JObj [(''timestamp'', JInt ts), (''member'', JStr m), (''voltage'', v)])])"

definition day_two_stream :: "json option list" where
  "day_two_stream = [id_line 30 ''d1'' ''A'', id_line 86580 ''d0'' ''Z'']"

definition example_voltage_stream :: "json option list" where
  "example_voltage_stream = [voltage_line 1000 ''W'' (JFloat 3), voltage_line 1005 ''V'' (JFloat 2),
                             voltage_line 1010 ''W'' (JFloat 5)]"

section \<open>Basic facts\<close>

lemma and_then_Inr_iff: "and_then r f = Inr y \<longleftrightarrow> (\<exists>x. r = Inr x \<and> f x = Inr y)"
  by (cases r) (simp_all add: and_then_def)

lemma and_then_Inl_iff: "and_then r f = Inl e \<longleftrightarrow> r = Inl e \<or> (\<exists>x. r = Inr x \<and> f x = Inl e)"
  by (cases r) (simp_all add: and_then_def)

lemma and_then_simps [simp]:
  "and_then (Inl e) f = Inl e" "and_then (Inr x) f = f x"
  by (simp_all add: and_then_def)

lemma traverse_Inr_iff: "traverse f xs = Inr ys \<longleftrightarrow> list_all2 (\<lambda>x y. f x = Inr y) xs ys"
  by (induction xs arbitrary: ys) (auto simp: and_then_Inr_iff list_all2_Cons1)

lemma traverse_Inr_map: "traverse f xs = Inr ys \<Longrightarrow> map f xs = map Inr ys"
  by (induction xs arbitrary: ys) (auto simp: and_then_Inr_iff)

lemma traverse_append:
  "traverse f (xs @ ys) =
     and_then (traverse f xs) (\<lambda>as. and_then (traverse f ys) (\<lambda>bs. Inr (as @ bs)))"
proof (induction xs)
  case Nil
  show ?case by (cases "traverse f ys") simp_all
next
  case (Cons x xs)
  show ?case
    by (cases "f x"; cases "traverse f xs"; cases "traverse f ys") (simp_all add: Cons.IH)
qed

lemma traverse_length: "traverse f xs = Inr ys \<Longrightarrow> length ys = length xs"
  by (simp add: traverse_Inr_iff list_all2_lengthD)

lemma traverse_compose:
  "traverse f xs = Inr ys \<Longrightarrow> traverse g ys = Inr zs \<Longrightarrow>
     list_all2 (\<lambda>x z. \<exists>y. f x = Inr y \<and> g y = Inr z) xs zs"
  by (induction xs arbitrary: ys zs) (auto simp: and_then_Inr_iff)

lemma list_all2_in_set2:
  "list_all2 R xs ys \<Longrightarrow> y \<in> set ys \<Longrightarrow> \<exists>x\<in>set xs. R x y"
  by (induction rule: list_all2_induct) auto

lemma with_datetime_Inr_iff:
  "with_datetime row = Inr z \<longleftrightarrow> (\<exists>dt. to_datetime (fst row) = Inr dt \<and> z = (dt, snd row))"
  by (auto simp: with_datetime_def and_then_Inr_iff)

lemma map_fst_groupby: "map fst (groupby rows) = sort (remdups (map fst rows))"
  by (simp add: groupby_def comp_def)

lemma map_fst_agg: "map fst (agg f gs) = map fst gs"
  by (induction gs) (auto simp: agg_def)

lemma sort_index_id: "sorted (map fst rows) \<Longrightarrow> sort_index rows = rows"
  by (simp add: sort_index_def sort_key_id_if_sorted)

lemma keys_agg_groupby: "map fst (agg f (groupby rows)) = sort (remdups (map fst rows))"
  by (simp add: map_fst_agg map_fst_groupby)

lemma sort_index_agg_groupby: "sort_index (agg f (groupby rows)) = agg f (groupby rows)"
  by (rule sort_index_id) (simp add: keys_agg_groupby)

lemma set_agg_groupby:
  "(k, v) \<in> set (agg f (groupby rows)) \<longleftrightarrow>
     k \<in> fst ` set rows \<and> v = f (map snd (filter (\<lambda>r. fst r = k) rows))"
  by (auto simp: agg_def groupby_def)

lemma mset_sort_index: "mset (sort_index rows) = mset rows"
  by (simp add: sort_index_def)

lemma sorted_sort_index: "sorted (map fst (sort_index rows))"
  by (simp add: sort_index_def)

lemma length_sort_index: "length (sort_index rows) = length rows"
  by (simp add: sort_index_def)

lemma sorted_date_range: "0 \<le> w \<Longrightarrow> sorted (date_range lo hi w)"
  unfolding date_range_def
  by (auto simp: sorted_map sorted_wrt_iff_nth_less intro!: mult_right_mono)

lemma distinct_date_range: "0 < w \<Longrightarrow> distinct (date_range lo hi w)"
  unfolding date_range_def
  by (auto simp: distinct_map intro!: inj_onI)

lemma distinct_map_by_class:
  assumes "\<And>c. distinct (map f (filter (\<lambda>x. g (f x) = c) xs))"
  shows "distinct (map f xs)"
  using assms
proof (induction xs)
  case Nil
  then show ?case by simp
next
  case (Cons x xs)
  have tl: "distinct (map f (filter (\<lambda>y. g (f y) = c) xs))" for c
    using Cons.prems[of c] by (cases "g (f x) = c") auto
  have "f x \<notin> f ` set xs"
  proof
    assume "f x \<in> f ` set xs"
    then obtain y where y: "y \<in> set xs" "f y = f x" by auto
    then have "f x \<in> f ` set (filter (\<lambda>y. g (f y) = g (f x)) xs)"
      by (intro image_eqI[where x = y]) auto
    with Cons.prems[of "g (f x)"] show False by simp
  qed
  with Cons.IH[OF tl] show ?case by simp
qed

lemma concat_pick:
  assumes "distinct (map fst gs)" and "(d, g) \<in> set gs"
  shows "concat (map (\<lambda>(i, g). if i = d then H i g else []) gs) = H d g"
  using assms
proof (induction gs)
  case Nil
  then show ?case by simp
next
  case (Cons p gs)
  show ?case
  proof (cases "fst p = d")
    case True
    with Cons.prems have pg: "p = (d, g)"
      by (metis distinct.simps(2) fst_conv image_eqI list.simps(9) prod.collapse set_ConsD set_map)
    have "d \<notin> fst ` set gs" using Cons.prems True by auto
    then have "concat (map (\<lambda>(i, g). if i = d then H i g else []) gs) = []"
      by (induction gs) auto
    then show ?thesis using pg by simp
  next
    case False
    with Cons show ?thesis by (auto simp: case_prod_beta)
  qed
qed

lemma concat_none:
  assumes "d \<notin> fst ` set gs"
  shows "concat (map (\<lambda>(i, g). if i = d then H i g else []) gs) = []"
  using assms by (induction gs) auto

lemma set_groupby:
  "(k, g) \<in> set (groupby rows) \<longleftrightarrow>
     k \<in> fst ` set rows \<and> g = map snd (filter (\<lambda>r. fst r = k) rows)"
  by (auto simp: groupby_def)

lemma distinct_keys_groupby: "distinct (map fst (groupby rows))"
  by (simp add: map_fst_groupby)

lemma group_device_rows:
  "map snd (filter (\<lambda>r. fst r = d) (map (\<lambda>((dt, i), m). (i, (dt, m))) idmap)) = device_rows d idmap"
  by (induction idmap) (auto simp: device_rows_def)

lemma filter_concat: "filter P (concat xss) = concat (map (filter P) xss)"
  by (induction xss) auto

lemma fill_gaps_device:
  fixes idmap :: "('i::linorder) idmap"
  assumes w: "0 < w"
  shows "filter (\<lambda>r. snd (fst r) = d) (id_to_member_mapping_fill_gaps idmap w tz) =
     (if d \<in> (\<lambda>r. snd (fst r)) ` set idmap
      then map (\<lambda>t. ((t, d), ffill (device_rows d idmap) t))
             (date_range (time_bin (tz (Min (set (map fst (device_rows d idmap))))) w
                            (Min (set (map fst (device_rows d idmap)))))
                         (Max (set (map fst (device_rows d idmap)))) w)
      else [])"
proof -
  define df where "df = map (\<lambda>((dt, i), m). (i, (dt, m))) idmap"
  define F :: "'i \<Rightarrow> (datetime \<times> string option) list \<Rightarrow> (('i \<times> datetime) \<times> string option) list"
    where "F = (\<lambda>i g. map (\<lambda>(dt, m). ((i, dt), m)) (resample_ffill g w tz))"
  define swp :: "(('i \<times> datetime) \<times> string option) \<Rightarrow> ((datetime \<times> 'i) \<times> string option)"
    where "swp = (\<lambda>((i, dt), m). ((dt, i), m))"
  have unf: "id_to_member_mapping_fill_gaps idmap w tz =
      sort_key fst (map swp (concat (map (\<lambda>(i, g). F i g) (groupby df))))"
    by (simp add: id_to_member_mapping_fill_gaps_def sort_index_def df_def F_def swp_def Let_def)
  have keys: "fst ` set df = (\<lambda>r. snd (fst r)) ` set idmap"
    by (force simp: df_def)
  have pick: "map (filter (\<lambda>r. snd (fst (swp r)) = d)) (map (\<lambda>(i, g). F i g) (groupby df))
      = map (\<lambda>(i, g). if i = d then F i g else []) (groupby df)"
    by (auto simp: F_def swp_def case_prod_beta)
  have step: "filter (\<lambda>r. snd (fst r) = d) (id_to_member_mapping_fill_gaps idmap w tz) =
      sort_key fst (map swp (concat (map (\<lambda>(i, g). if i = d then F i g else []) (groupby df))))"
    unfolding unf filter_sort filter_map comp_def filter_concat pick ..
  show ?thesis
  proof (cases "d \<in> (\<lambda>r. snd (fst r)) ` set idmap")
    case False
    then have "d \<notin> fst ` set (groupby df)"
      using keys by (auto simp: set_groupby)
    then have "concat (map (\<lambda>(i, g). if i = d then F i g else []) (groupby df)) = []"
      by (rule concat_none)
    then have "filter (\<lambda>r. snd (fst r) = d) (id_to_member_mapping_fill_gaps idmap w tz) = []"
      unfolding step by (simp only: list.map sort_key_simps)
    then show ?thesis using False by simp
  next
    case True
    let ?g = "device_rows d idmap"
    have mem: "(d, ?g) \<in> set (groupby df)"
      using True keys by (simp add: set_groupby df_def group_device_rows)
    have "concat (map (\<lambda>(i, g). if i = d then F i g else []) (groupby df)) = F d ?g"
      using distinct_keys_groupby mem by (rule concat_pick)
    then have eq: "filter (\<lambda>r. snd (fst r) = d) (id_to_member_mapping_fill_gaps idmap w tz) =
        sort_key fst (map swp (F d ?g))"
      using step by simp
    have ne: "?g \<noteq> []" using True by (auto simp: device_rows_def filter_empty_conv)
    let ?dr = "date_range (time_bin (tz (Min (set (map fst ?g)))) w (Min (set (map fst ?g))))
                 (Max (set (map fst ?g))) w"
    have rows: "map swp (F d ?g) = map (\<lambda>t. ((t, d), ffill ?g t)) ?dr"
      using ne by (simp add: F_def swp_def resample_ffill_def comp_def Let_def)
    have "sorted (map fst (map (\<lambda>t. ((t, d), ffill ?g t)) ?dr))"
    proof -
      have "sorted ?dr" using w by (simp add: sorted_date_range)
      then have "sorted (map (\<lambda>t. (t, d)) ?dr)"
        by (simp add: sorted_map sorted_wrt_iff_nth_less less_eq_prod_def)
      then show ?thesis by (simp add: comp_def)
    qed
    then have "sort_key fst (map (\<lambda>t. ((t, d), ffill ?g t)) ?dr) = map (\<lambda>t. ((t, d), ffill ?g t)) ?dr"
      by (rule sort_key_id_if_sorted)
    then show ?thesis using True eq rows by simp
  qed
qed

lemma distinct_keys_fill_gaps:
  fixes idmap :: "('i::linorder) idmap"
  assumes "0 < w"
  shows "distinct (map fst (id_to_member_mapping_fill_gaps idmap w tz))"
proof (rule distinct_map_by_class[where g = snd])
  fix c :: 'i
  show "distinct (map fst (filter (\<lambda>x. snd (fst x) = c) (id_to_member_mapping_fill_gaps idmap w tz)))"
    unfolding fill_gaps_device[OF assms]
    by (auto simp: distinct_map comp_def distinct_date_range[OF assms] intro!: inj_onI)
qed

lemma sorted_keys_fill_gaps: "sorted (map fst (id_to_member_mapping_fill_gaps idmap w tz))"
  by (simp add: id_to_member_mapping_fill_gaps_def Let_def sorted_sort_index)


lemma id_run_iff:
  "id_to_member_mapping mac render fo w tz fill = Inr out \<longleftrightarrow>
     (\<exists>df. id_records mac render fo = Inr df \<and> 0 < w \<and>
        out = (if fill
               then id_to_member_mapping_fill_gaps
                      (observed (TimeGrouper w tz (map fst df)) df) w tz
               else observed (TimeGrouper w tz (map fst df)) df))"
  by (auto simp: id_to_member_mapping_def id_records_def and_then_Inr_iff Let_def
      sort_index_agg_groupby observed_def)

lemma sorted_keys_observed: "sorted (map fst (observed bin df))"
  by (simp add: observed_def keys_agg_groupby)

lemma distinct_keys_observed: "distinct (map fst (observed bin df))"
  by (simp add: observed_def keys_agg_groupby)

lemma voltages_run_iff:
  "voltages render parse fo w tz = Inr out \<longleftrightarrow>
     (\<exists>df. voltage_records render parse fo = Inr df \<and> 0 < w \<and>
        out = agg mean (groupby (map (\<lambda>(dt, m, v). ((TimeGrouper w tz (map fst df) dt, m), v)) df)))"
  by (auto simp: voltages_def voltage_records_def and_then_Inr_iff Let_def sort_index_agg_groupby)

lemma sample_counts_run_iff:
  "sample_counts render fo keep_type = Inr out \<longleftrightarrow>
     (\<exists>rows df. traverse (readfile_count render) fo = Inr rows \<and>
        traverse with_datetime rows = Inr df \<and>
        out = sort_index (map (\<lambda>(dt, type, m, cnt).
                ((dt, if keep_type then [type, m] else [m]), cnt)) df))"
  by (auto simp: sample_counts_def and_then_Inr_iff)

section \<open>The first record of a bin wins (C2)\<close>

text \<open>
  Claim C2. In a run without gap filling, let \<open>df\<close> be the decoded records of the stream
  and \<open>bin\<close> the labelling of the run's grid. Take a record of the stream, with device
  \<open>d\<close>, wearer \<open>m\<close> and instant \<open>dt\<close>, such that no record before it in the stream has the
  same bin and the same device. Then the table has the row of that bin and device with
  the wearer \<open>m\<close>, and no other value for that key, whatever the records after it say.
\<close>

theorem first_in_stream_order:
  assumes run: "id_to_member_mapping mac render (pre @ line # post) w tz False = Inr out"
    and recs: "id_records mac render (pre @ line # post) = Inr df"
    and rec: "readfile_id mac render line = Inr (ts, d, m)"
    and dt: "to_datetime ts = Inr dt"
    and earliest: "\<forall>l\<in>set pre. \<forall>ts' d' m' dt'.
        readfile_id mac render l = Inr (ts', d', m') \<and> to_datetime ts' = Inr dt'
        \<longrightarrow> (TimeGrouper w tz (map fst df) dt', d') \<noteq> (TimeGrouper w tz (map fst df) dt, d)"
  shows "((TimeGrouper w tz (map fst df) dt, d), Some m) \<in> set out
      \<and> (\<forall>v. ((TimeGrouper w tz (map fst df) dt, d), v) \<in> set out \<longrightarrow> v = Some m)"
proof -
  let ?R = "\<lambda>x z. \<exists>y. readfile_id mac render x = Inr y \<and> with_datetime y = Inr z"
  define bin where "bin = TimeGrouper w tz (map fst df)"
  let ?key = "\<lambda>(dt, i, m). ((bin dt, i), m)"
  let ?k = "(bin dt, d)"
  from run recs have out: "out = observed bin df"
    by (auto simp: id_run_iff bin_def)
  from recs obtain rows where rd: "traverse (readfile_id mac render) (pre @ line # post) = Inr rows"
      "traverse with_datetime rows = Inr df"
    by (auto simp: id_records_def and_then_Inr_iff)
  from rd have "list_all2 ?R (pre @ line # post) df" by (rule traverse_compose)
  then obtain dpre z dpost where df: "df = dpre @ z # dpost"
      and pre: "list_all2 ?R pre dpre" and z: "?R line z"
    by (auto simp: list_all2_append1 list_all2_Cons1)
  from z rec dt have zeq: "z = (dt, d, m)" by (auto simp: with_datetime_Inr_iff)
  have nokey: "fst (?key x) \<noteq> ?k" if "x \<in> set dpre" for x
  proof -
    from pre that obtain l where l: "l \<in> set pre" and "?R l x"
      by (blast dest: list_all2_in_set2)
    then obtain ts' d' m' dt' where "readfile_id mac render l = Inr (ts', d', m')"
        "to_datetime ts' = Inr dt'" "x = (dt', d', m')"
      by (auto simp: with_datetime_Inr_iff)
    with earliest l show ?thesis unfolding bin_def[symmetric] by auto
  qed
  then have "filter (\<lambda>r. fst r = ?k) (map ?key dpre) = []"
    by (auto simp: filter_empty_conv)
  then have grp: "first (map snd (filter (\<lambda>r. fst r = ?k) (map ?key (dpre @ z # dpost)))) = Some m"
    by (simp add: zeq first_def)
  have "?k \<in> fst ` set (map ?key (dpre @ z # dpost))" by (force simp: zeq)
  with grp have "(?k, Some m) \<in> set out \<and> (\<forall>v. (?k, v) \<in> set out \<longrightarrow> v = Some m)"
    unfolding out observed_def set_agg_groupby df by simp
  then show ?thesis unfolding bin_def .
qed

section \<open>Order and uniqueness of the keys (C4)\<close>

text \<open>
  Claim C4, as the code has it. The tables of \<open>id_to_member_mapping\<close> (with and without
  gap filling) and of \<open>voltages\<close> are sorted ascending on their full key and have at
  most one row per key. The table of \<open>sample_counts\<close> is sorted ascending on its full
  key and has one row per record of the stream: nothing groups its rows, so a key may
  occur more than once.
\<close>

theorem tables_sorted:
  "(id_to_member_mapping mac render fo_id w tz fill_gaps = Inr t1 \<longrightarrow>
      sorted (map fst t1) \<and> distinct (map fst t1))
   \<and> (voltages render parse fo_volt w tz = Inr t2 \<longrightarrow> sorted (map fst t2) \<and> distinct (map fst t2))
   \<and> (sample_counts render fo_cnt keep_type = Inr t3 \<longrightarrow>
      sorted (map fst t3) \<and> length t3 = length fo_cnt)"
proof (intro conjI impI)
  assume "id_to_member_mapping mac render fo_id w tz fill_gaps = Inr t1"
  then obtain df where w: "0 < w"
    and t1: "t1 = (if fill_gaps
                   then id_to_member_mapping_fill_gaps
                          (observed (TimeGrouper w tz (map fst df)) df) w tz
                   else observed (TimeGrouper w tz (map fst df)) df)"
    by (auto simp: id_run_iff)
  show "sorted (map fst t1)"
    unfolding t1 by (simp add: sorted_keys_fill_gaps sorted_keys_observed)
  show "distinct (map fst t1)"
    unfolding t1 using w by (simp add: distinct_keys_fill_gaps distinct_keys_observed)
next
  assume "voltages render parse fo_volt w tz = Inr t2"
  then obtain df where
    t2: "t2 = agg mean (groupby (map (\<lambda>(dt, m, v). ((TimeGrouper w tz (map fst df) dt, m), v)) df))"
    by (auto simp: voltages_run_iff)
  show "sorted (map fst t2)" unfolding t2 by (simp add: keys_agg_groupby)
  show "distinct (map fst t2)" unfolding t2 by (simp add: keys_agg_groupby)
next
  assume "sample_counts render fo_cnt keep_type = Inr t3"
  then obtain rows df where rd: "traverse (readfile_count render) fo_cnt = Inr rows"
      "traverse with_datetime rows = Inr df"
    and t3: "t3 = sort_index (map (\<lambda>(dt, type, m, cnt).
                ((dt, if keep_type then [type, m] else [m]), cnt)) df)"
    by (auto simp: sample_counts_run_iff)
  show "sorted (map fst t3)" unfolding t3 by (rule sorted_sort_index)
  show "length t3 = length fo_cnt"
    unfolding t3 using rd by (simp add: length_sort_index traverse_length)
qed

lemma readfile_count_unknown:
  assumes "loads line = Inr raw_data" and "getitem raw_data ''data'' = Inr data"
    and "getitem raw_data ''type'' = Inr type"
    and "type \<noteq> JStr ''proximity received''" and "type \<noteq> JStr ''audio received''"
    and "getitem data ''timestamp'' = Inr ts" and "getitem data ''member'' = Inr m"
  shows "readfile_count render line = Inr (ts, str render type, str render m, - 1)"
  using assms by (simp add: readfile_count_def)

lemma traverse_insert:
  assumes "traverse f (pre @ post) = Inr ys" and "f x = Inr y"
  shows "\<exists>as bs. ys = as @ bs \<and> traverse f pre = Inr as \<and> traverse f post = Inr bs \<and>
     traverse f (pre @ x # post) = Inr (as @ y # bs)"
proof -
  from assms(1) obtain as bs where "traverse f pre = Inr as" "traverse f post = Inr bs" "ys = as @ bs"
    by (auto simp: traverse_append and_then_Inr_iff)
  then show ?thesis using assms(2) by (auto simp: traverse_append)
qed

section \<open>Records of an unknown type (C5)\<close>

text \<open>
  Claim C5. A record whose type is neither \<open>proximity received\<close> nor
  \<open>audio received\<close>, with a timestamp and a member in its data, is read with the count
  \<open>-1\<close> whatever else its data holds. Added to a stream that \<open>sample_counts\<close> accepts,
  it leaves the run successful, and the table gains exactly one row, keyed by the
  record and with the count \<open>-1\<close>.
\<close>

theorem unknown_type_sentinel:
  assumes others: "sample_counts render (pre @ post) keep_type = Inr t'"
    and l: "loads line = Inr raw_data" and d: "getitem raw_data ''data'' = Inr data"
    and ty: "getitem raw_data ''type'' = Inr type"
    and unknown: "type \<noteq> JStr ''proximity received''" "type \<noteq> JStr ''audio received''"
    and ts: "getitem data ''timestamp'' = Inr ts" and dt: "to_datetime ts = Inr dt"
    and m: "getitem data ''member'' = Inr m"
  shows "readfile_count render line = Inr (ts, str render type, str render m, - 1)
     \<and> (\<exists>t. sample_counts render (pre @ line # post) keep_type = Inr t
          \<and> mset t = add_mset ((dt, if keep_type then [str render type, str render m]
                                     else [str render m]), - 1) (mset t'))"
proof -
  let ?K = "\<lambda>(dt, type, m, cnt). ((dt, if keep_type then [type, m] else [m]), cnt::int)"
  let ?row = "(ts, str render type, str render m, - 1 :: int)"
  have rc: "readfile_count render line = Inr ?row"
    using l d ty unknown ts m by (rule readfile_count_unknown)
  from others obtain rows df where rows: "traverse (readfile_count render) (pre @ post) = Inr rows"
      and df: "traverse with_datetime rows = Inr df" and t': "t' = sort_index (map ?K df)"
    by (auto simp: sample_counts_run_iff)
  from traverse_insert[OF rows rc] obtain ra rb where rab: "rows = ra @ rb"
      and rows2: "traverse (readfile_count render) (pre @ line # post) = Inr (ra @ ?row # rb)"
    by blast
  have wd: "with_datetime ?row = Inr (dt, str render type, str render m, - 1)"
    using dt by (simp add: with_datetime_def)
  from traverse_insert[OF df[unfolded rab] wd] obtain da db where dab: "df = da @ db"
      and df2: "traverse with_datetime (ra @ ?row # rb)
          = Inr (da @ (dt, str render type, str render m, - 1) # db)"
    by blast
  let ?t = "sort_index (map ?K (da @ (dt, str render type, str render m, - 1) # db))"
  have "sample_counts render (pre @ line # post) keep_type = Inr ?t"
    using rows2 df2 by (auto simp: sample_counts_run_iff)
  moreover have "mset ?t = add_mset ((dt, if keep_type then [str render type, str render m]
                                     else [str render m]), - 1) (mset t')"
    by (simp add: t' dab mset_sort_index)
  ultimately show ?thesis using rc by blast
qed

section \<open>A recognised type without its sequence (C10)\<close>

text \<open>
  Claim C10. A record of type \<open>proximity received\<close> whose data object has no
  \<open>rssi_distances\<close>, or of type \<open>audio received\<close> whose data object has no \<open>samples\<close>,
  is read with a KeyError for that field. Any stream that contains it makes
  \<open>sample_counts\<close> end with an error and no table; the error is that KeyError when the
  records before it are read without error.
\<close>

theorem missing_sequence_aborts:
  assumes l: "loads line = Inr raw_data" and d: "getitem raw_data ''data'' = Inr (JObj kvs)"
    and ty: "getitem raw_data ''type'' = Inr type"
    and known: "(type = JStr ''proximity received'' \<and> k = ''rssi_distances'')
        \<or> (type = JStr ''audio received'' \<and> k = ''samples'')"
    and missing: "map_of kvs k = None"
  shows "readfile_count render line = Inl (KeyError k)
     \<and> (\<exists>e. sample_counts render (pre @ line # post) keep_type = Inl e)
     \<and> (\<forall>rows. traverse (readfile_count render) pre = Inr rows \<longrightarrow>
           sample_counts render (pre @ line # post) keep_type = Inl (KeyError k))"
proof -
  have rc: "readfile_count render line = Inl (KeyError k)"
    using l d ty known missing by (auto simp: readfile_count_def getitem_def)
  have tr: "traverse (readfile_count render) (pre @ line # post) =
      and_then (traverse (readfile_count render) pre) (\<lambda>as. Inl (KeyError k))"
    by (simp add: traverse_append rc)
  show ?thesis
  proof (cases "traverse (readfile_count render) pre")
    case (Inl e)
    then show ?thesis using rc by (simp add: sample_counts_def tr)
  next
    case (Inr rows)
    then show ?thesis using rc by (simp add: sample_counts_def tr)
  qed
qed

section \<open>The count pipeline does not bin (C3)\<close>

lemma count_row_of_record:
  assumes "readfile_count render line = Inr y" and "with_datetime y = Inr z"
  shows "\<exists>ts type m cnt dt. readfile_count render line = Inr (ts, type, m, cnt) \<and>
     to_datetime ts = Inr dt \<and>
     count_row keep_type z = ((dt, if keep_type then [type, m] else [m]), cnt)"
proof -
  obtain ts type m cnt where y: "y = (ts, type, m, cnt)" by (metis prod.collapse)
  from assms(2) obtain dt where "to_datetime ts = Inr dt" "z = (dt, type, m, cnt)"
    by (auto simp: y with_datetime_Inr_iff)
  then show ?thesis using assms(1) by (auto simp: y count_row_def)
qed

text \<open>
  Claim C3, as the code has it. \<open>sample_counts\<close> takes no bin width. Its table is
  sorted by key and holds, counted with repetitions, exactly one row for each record
  of the stream: the row keyed by that record's own instant (the instant of its
  timestamp, not the start of a bin) and its own member (and type), with its own count.
\<close>

theorem sample_counts_keyed_by_instant:
  assumes "sample_counts render fo keep_type = Inr t"
  shows "\<exists>recs.
     list_all2 (\<lambda>line r. \<exists>ts type m cnt dt.
         readfile_count render line = Inr (ts, type, m, cnt) \<and> to_datetime ts = Inr dt \<and>
         r = ((dt, if keep_type then [type, m] else [m]), cnt)) fo recs
     \<and> mset t = mset recs \<and> sorted (map fst t)"
proof -
  have cr: "(\<lambda>(dt, type, m, cnt). ((dt, if keep_type then [type, m] else [m]), cnt::int))
      = count_row keep_type"
    by (auto simp: fun_eq_iff count_row_def)
  from assms obtain rows df where rows: "traverse (readfile_count render) fo = Inr rows"
      and df: "traverse with_datetime rows = Inr df"
      and t: "t = sort_index (map (count_row keep_type) df)"
    unfolding sample_counts_run_iff cr by blast
  from rows df have "list_all2 (\<lambda>x z. \<exists>y. readfile_count render x = Inr y \<and> with_datetime y = Inr z) fo df"
    by (rule traverse_compose)
  then have "list_all2 (\<lambda>line r. \<exists>ts type m cnt dt.
         readfile_count render line = Inr (ts, type, m, cnt) \<and> to_datetime ts = Inr dt \<and>
         r = ((dt, if keep_type then [type, m] else [m]), cnt)) fo (map (count_row keep_type) df)"
    unfolding list_all2_map2
    by (rule list_all2_mono) (blast dest: count_row_of_record)
  moreover have "mset t = mset (map (count_row keep_type) df)"
    by (simp add: t mset_sort_index)
  moreover have "sorted (map fst t)" unfolding t by (rule sorted_sort_index)
  ultimately show ?thesis by blast
qed

section \<open>The mean voltage of a bin (C6)\<close>











section \<open>Gap filling on a grid aligned with the days\<close>

lemma set_date_range:
  assumes "0 < w"
  shows "set (date_range lo hi w) = {t. lo \<le> t \<and> t \<le> hi \<and> w dvd (t - lo)}"
proof (intro set_eqI iffI)
  fix t assume "t \<in> set (date_range lo hi w)"
  then obtain k where k: "k < nat ((hi - lo) div w + 1)" and t: "t = lo + int k * w"
    by (auto simp: date_range_def)
  from k have "int k \<le> (hi - lo) div w" by linarith
  then have "int k * w \<le> (hi - lo) div w * w" using assms by (simp add: mult_right_mono)
  also have "\<dots> \<le> hi - lo" using assms
    by (metis mult.commute pos_mod_sign add_le_cancel_left add.right_neutral mult_div_mod_eq)
  finally show "t \<in> {t. lo \<le> t \<and> t \<le> hi \<and> w dvd (t - lo)}"
    using t assms by auto
next
  fix t assume "t \<in> {t. lo \<le> t \<and> t \<le> hi \<and> w dvd (t - lo)}"
  then have le: "lo \<le> t" "t \<le> hi" and dv: "w dvd (t - lo)" by auto
  from dv obtain q where q: "t - lo = w * q" by (auto simp: dvd_def)
  have "0 \<le> w * q" using le q by simp
  with assms have q0: "0 \<le> q" by (simp add: zero_le_mult_iff)
  have "q = (t - lo) div w" using q assms by simp
  also have "\<dots> \<le> (hi - lo) div w" using le assms by (simp add: zdiv_mono1)
  finally have "nat q < nat ((hi - lo) div w + 1)" using q0 by linarith
  moreover have "t = lo + int (nat q) * w" using q q0 by (simp add: mult.commute)
  ultimately show "t \<in> set (date_range lo hi w)"
    unfolding date_range_def by (auto intro!: image_eqI[where x = "nat q"])
qed

lemma sorted_key_le_last:
  "sorted (map f xs) \<Longrightarrow> x \<in> set xs \<Longrightarrow> f x \<le> f (last xs)"
  by (induction xs) (auto split: if_splits)

lemma ffill_greatest:
  assumes srt: "sorted (map fst g)" and dst: "distinct (map fst g)"
    and mem: "(b1, v) \<in> set g" and le: "b1 \<le> t"
    and gr: "\<And>b' v'. (b', v') \<in> set g \<Longrightarrow> b' \<le> t \<Longrightarrow> b' \<le> b1"
  shows "ffill g t = v"
proof -
  define xs where "xs = filter (\<lambda>r. fst r \<le> t) g"
  have in_xs: "(b1, v) \<in> set xs" using mem le by (simp add: xs_def)
  then have ne: "xs \<noteq> []" by auto
  then obtain r rs where rrs: "xs = r # rs" by (cases xs) auto
  have ff: "ffill g t = snd (last xs)"
    unfolding ffill_def xs_def[symmetric] by (simp add: rrs)
  have "last xs \<in> set xs" using ne by (rule last_in_set)
  then have l_in_g: "last xs \<in> set g" and l_le: "fst (last xs) \<le> t"
    by (simp_all add: xs_def)
  have "(fst (last xs), snd (last xs)) \<in> set g" using l_in_g by simp
  then have "fst (last xs) \<le> b1" using l_le by (rule gr)
  moreover have "sorted (map fst xs)" using srt by (simp add: xs_def sorted_filter)
  then have "fst (b1, v) \<le> fst (last xs)" using in_xs by (rule sorted_key_le_last)
  ultimately have "fst (last xs) = b1" by simp
  with dst mem l_in_g have "last xs = (b1, v)"
    by (metis eq_key_imp_eq_value prod.collapse)
  then show ?thesis using ff by simp
qed

lemma first_Some: "vs \<noteq> [] \<Longrightarrow> \<exists>v. first vs = Some v"
  by (cases vs) (auto simp: first_def)

lemma time_bin_on_grid:
  assumes "0 < w" and "w dvd (b - origin)"
  shows "time_bin origin w b = b"
proof -
  from assms(2) obtain q where q: "b - origin = w * q" by (auto simp: dvd_def)
  then have "(b - origin) div w = q" using assms(1) by simp
  then show ?thesis using q by (simp add: time_bin_def)
qed

lemma TimeGrouper_time_bin: "TimeGrouper w tz ts = time_bin (tz (Min (set ts))) w"
  by (simp add: fun_eq_iff TimeGrouper_def)

lemma observed_row:
  assumes "((b, d), v) \<in> set (observed (time_bin origin w) df)"
  shows "w dvd (b - origin) \<and> (\<exists>m. v = Some m)"
proof -
  let ?rows = "map (\<lambda>(dt, i, m). ((time_bin origin w dt, i), m)) df"
  from assms have k: "(b, d) \<in> fst ` set ?rows"
    and v: "v = first (map snd (filter (\<lambda>r. fst r = (b, d)) ?rows))"
    by (simp_all add: observed_def set_agg_groupby)
  from k have "w dvd (b - origin)" by (auto simp: time_bin_def)
  moreover from k have "map snd (filter (\<lambda>r. fst r = (b, d)) ?rows) \<noteq> []"
    by (simp add: filter_empty_conv image_iff) force
  then have "\<exists>m. v = Some m" unfolding v by (rule first_Some)
  ultimately show ?thesis by simp
qed

lemma set_device_rows: "(b, v) \<in> set (device_rows d idmap) \<longleftrightarrow> ((b, d), v) \<in> set idmap"
  by (force simp: device_rows_def)

lemma sorted_device_rows:
  assumes "sorted (map fst idmap)"
  shows "sorted (map fst (device_rows d idmap))"
proof -
  have "sorted (map fst (filter (\<lambda>r. snd (fst r) = d) idmap))"
    using assms by (rule sorted_filter)
  then have "sorted (map fst (map fst (filter (\<lambda>r. snd (fst r) = d) idmap)))"
    by (simp add: sorted_map sorted_wrt_iff_nth_less less_eq_prod_def) (meson less_imp_le)
  then show ?thesis by (simp add: device_rows_def comp_def)
qed

lemma distinct_device_rows:
  assumes "distinct (map fst idmap)"
  shows "distinct (map fst (device_rows d idmap))"
proof -
  have d1: "distinct (map fst (filter (\<lambda>r. snd (fst r) = d) idmap))"
    using assms by (rule distinct_map_filter)
  have "inj_on fst (set (map fst (filter (\<lambda>r. snd (fst r) = d) idmap)))"
    by (auto intro!: inj_onI simp: prod_eq_iff)
  with d1 have "distinct (map fst (map fst (filter (\<lambda>r. snd (fst r) = d) idmap)))"
    by (subst distinct_map) simp
  then show ?thesis by (simp add: device_rows_def comp_def)
qed

lemma fill_gaps_row:
  fixes idmap :: "('i::linorder) idmap"
  assumes "0 < w"
  shows "((t, d), v) \<in> set (id_to_member_mapping_fill_gaps idmap w tz) \<longleftrightarrow>
     d \<in> (\<lambda>r. snd (fst r)) ` set idmap \<and>
     t \<in> set (date_range (time_bin (tz (Min (set (map fst (device_rows d idmap))))) w
                            (Min (set (map fst (device_rows d idmap)))))
                         (Max (set (map fst (device_rows d idmap)))) w) \<and>
     v = ffill (device_rows d idmap) t"
proof -
  have "((t, d), v) \<in> set (id_to_member_mapping_fill_gaps idmap w tz) \<longleftrightarrow>
      ((t, d), v) \<in> set (filter (\<lambda>r. snd (fst r) = d) (id_to_member_mapping_fill_gaps idmap w tz))"
    by simp
  also have "\<dots> \<longleftrightarrow> d \<in> (\<lambda>r. snd (fst r)) ` set idmap \<and>
     t \<in> set (date_range (time_bin (tz (Min (set (map fst (device_rows d idmap))))) w
                            (Min (set (map fst (device_rows d idmap)))))
                         (Max (set (map fst (device_rows d idmap)))) w) \<and>
     v = ffill (device_rows d idmap) t"
    unfolding fill_gaps_device[OF assms] by auto
  finally show ?thesis .
qed

text \<open>
  When the bin width divides the distance between any two local midnights (as one
  minute does for a zone whose offsets are whole minutes), the grid of each device's
  resample is the grid of the observed bins. Gap filling then covers, for a device,
  every bin of that grid between two of its observed bins, with the wearer of the
  latest observed bin not after it.
\<close>

lemma fill_gaps_covers_aligned:
  assumes run: "id_to_member_mapping mac render fo w tz False = Inr obs"
    and aligned: "\<forall>a b. w dvd (tz a - tz b)"
    and lo: "((lo, d), vlo) \<in> set obs" and hi: "((hi, d), vhi) \<in> set obs"
    and range: "lo \<le> b" "b \<le> hi" and grid: "w dvd (b - lo)"
  shows "\<exists>out b1 m. id_to_member_mapping mac render fo w tz True = Inr out
      \<and> b1 \<le> b \<and> ((b1, d), Some m) \<in> set obs
      \<and> (\<forall>b' v'. ((b', d), v') \<in> set obs \<and> b' \<le> b \<longrightarrow> b' \<le> b1)
      \<and> ((b, d), Some m) \<in> set out
      \<and> (\<forall>v'. ((b, d), v') \<in> set out \<longrightarrow> v' = Some m)"
proof -
  from run obtain df where w: "0 < w"
      and recs: "id_records mac render fo = Inr df"
      and obs0: "obs = observed (TimeGrouper w tz (map fst df)) df"
    by (auto simp: id_run_iff)
  define origin where "origin = tz (Min (set (map fst df)))"
  have obs: "obs = observed (time_bin origin w) df"
    unfolding obs0 TimeGrouper_time_bin origin_def ..
  define out where "out = id_to_member_mapping_fill_gaps obs w tz"
  have run': "id_to_member_mapping mac render fo w tz True = Inr out"
    using recs w by (auto simp: id_run_iff out_def obs0)
  define g where "g = device_rows d obs"
  define G where "G = set (map fst g)"
  have fin: "finite G" by (simp add: G_def)
  have inG: "t \<in> G" if "((t, d), u) \<in> set obs" for t u
  proof -
    have "(t, u) \<in> set g" using that by (simp add: g_def set_device_rows)
    then have "fst (t, u) \<in> fst ` set g" by (rule imageI)
    then show ?thesis by (simp add: G_def)
  qed
  have loG: "lo \<in> G" using lo by (rule inG)
  have hiG: "hi \<in> G" using hi by (rule inG)
  have minle: "Min G \<le> lo" using fin loG by simp
  have maxge: "hi \<le> Max G" using fin hiG by simp
  have "Min G \<in> G" using fin loG by (intro Min_in) auto
  then obtain v0 where "((Min G, d), v0) \<in> set obs"
    by (auto simp: G_def g_def set_device_rows)
  then have dmin: "w dvd (Min G - origin)" using observed_row unfolding obs by blast
  have dlo: "w dvd (lo - origin)" using lo observed_row unfolding obs by blast
  have "w dvd (origin - tz (Min G))" unfolding origin_def using aligned by blast
  with dmin have "w dvd ((Min G - origin) + (origin - tz (Min G)))" by (rule dvd_add)
  then have "w dvd (Min G - tz (Min G))" by simp
  with w have start: "time_bin (tz (Min G)) w (Min G) = Min G" by (rule time_bin_on_grid)
  from grid dlo have "w dvd ((b - lo) + (lo - origin))" by (rule dvd_add)
  then have "w dvd (b - origin)" by simp
  from this dmin have "w dvd ((b - origin) - (Min G - origin))" by (rule dvd_diff)
  then have dv: "w dvd (b - Min G)" by simp
  have bin: "b \<in> set (date_range (time_bin (tz (Min G)) w (Min G)) (Max G) w)"
    unfolding start using minle maxge range dv by (simp add: set_date_range[OF w])
  define S where "S = {b' \<in> G. b' \<le> b}"
  have finS: "finite S" and neS: "S \<noteq> {}" using fin loG range by (auto simp: S_def)
  define b1 where "b1 = Max S"
  have b1S: "b1 \<in> S" unfolding b1_def using finS neS by (rule Max_in)
  then have b1le: "b1 \<le> b" and "b1 \<in> G" by (auto simp: S_def)
  then obtain v where vg: "(b1, v) \<in> set g" by (auto simp: G_def)
  then have vobs: "((b1, d), v) \<in> set obs" by (simp add: g_def set_device_rows)
  then obtain m where m: "v = Some m" using observed_row unfolding obs by blast
  have great: "b' \<le> b1" if "(b', v') \<in> set g" "b' \<le> b" for b' v'
  proof -
    have "b' \<in> S" using that by (force simp: S_def G_def)
    then show ?thesis unfolding b1_def using finS by simp
  qed
  have srt: "sorted (map fst g)" unfolding g_def obs
    using sorted_keys_observed by (rule sorted_device_rows)
  have dst: "distinct (map fst g)" unfolding g_def obs
    using distinct_keys_observed by (rule distinct_device_rows)
  have ff: "ffill g b = v" using srt dst vg b1le great by (rule ffill_greatest)
  have dmem: "d \<in> (\<lambda>r. snd (fst r)) ` set obs" using lo by force
  have row: "((b, d), v') \<in> set out \<longleftrightarrow> v' = Some m" for v'
    unfolding out_def fill_gaps_row[OF w] using dmem bin ff m
    by (auto simp: g_def G_def)
  have "\<forall>b' v'. ((b', d), v') \<in> set obs \<and> b' \<le> b \<longrightarrow> b' \<le> b1"
    using great by (auto simp: g_def set_device_rows)
  with run' b1le vobs m row show ?thesis by blast
qed

lemma filter_key_single:
  "distinct (map fst xs) \<Longrightarrow> (k, v) \<in> set xs \<Longrightarrow> filter (\<lambda>r. fst r = k) xs = [(k, v)]"
proof (induction xs)
  case Nil
  then show ?case by simp
next
  case (Cons x xs)
  show ?case
  proof (cases "fst x = k")
    case True
    with Cons.prems have "x = (k, v)"
      by (metis distinct.simps(2) fst_conv image_eqI list.simps(9) prod.collapse set_ConsD set_map)
    moreover have "filter (\<lambda>r. fst r = k) xs = []"
      using Cons.prems True by (force simp: filter_empty_conv image_iff)
    ultimately show ?thesis by simp
  next
    case False
    with Cons show ?thesis by auto
  qed
qed

text \<open>
  On such a grid a device seen in one bin only has that one row, with its observed
  wearer, with and without gap filling.
\<close>

lemma single_bin_device_aligned:
  assumes run: "id_to_member_mapping mac render fo w tz False = Inr obs"
    and aligned: "\<forall>a b. w dvd (tz a - tz b)"
    and row: "((b, d), v) \<in> set obs"
    and only: "\<forall>b' v'. ((b', d), v') \<in> set obs \<longrightarrow> b' = b"
  shows "\<exists>out m. id_to_member_mapping mac render fo w tz True = Inr out \<and> v = Some m
      \<and> filter (\<lambda>r. snd (fst r) = d) obs = [((b, d), Some m)]
      \<and> filter (\<lambda>r. snd (fst r) = d) out = [((b, d), Some m)]"
proof -
  from run obtain df where w: "0 < w"
      and recs: "id_records mac render fo = Inr df"
      and obs0: "obs = observed (TimeGrouper w tz (map fst df)) df"
    by (auto simp: id_run_iff)
  define origin where "origin = tz (Min (set (map fst df)))"
  have obs: "obs = observed (time_bin origin w) df"
    unfolding obs0 TimeGrouper_time_bin origin_def ..
  define out where "out = id_to_member_mapping_fill_gaps obs w tz"
  have run': "id_to_member_mapping mac render fo w tz True = Inr out"
    using recs w by (auto simp: id_run_iff out_def obs0)
  from row observed_row have db: "w dvd (b - origin)" and "\<exists>m. v = Some m"
    unfolding obs by blast+
  then obtain m where m: "v = Some m" by blast
  have "w dvd (origin - tz b)" unfolding origin_def using aligned by blast
  with db have "w dvd ((b - origin) + (origin - tz b))" by (rule dvd_add)
  then have "w dvd (b - tz b)" by simp
  with w have start: "time_bin (tz b) w b = b" by (rule time_bin_on_grid)
  have same: "snd (fst r) = d \<longleftrightarrow> fst r = (b, d)" if "r \<in> set obs" for r
  proof -
    obtain b' d' v' where r: "r = ((b', d'), v')" by (metis prod.collapse)
    show ?thesis using only that unfolding r by auto
  qed
  have "filter (\<lambda>r. snd (fst r) = d) obs = filter (\<lambda>r. fst r = (b, d)) obs"
    using same by (intro filter_cong refl)
  also have "\<dots> = [((b, d), v)]"
    using distinct_keys_observed row unfolding obs by (rule filter_key_single)
  finally have fobs: "filter (\<lambda>r. snd (fst r) = d) obs = [((b, d), v)]" .
  then have g: "device_rows d obs = [(b, v)]" by (simp add: device_rows_def)
  have dmem: "d \<in> (\<lambda>r. snd (fst r)) ` set obs" using row by force
  have "filter (\<lambda>r. snd (fst r) = d) out = [((b, d), v)]"
    unfolding out_def fill_gaps_device[OF w] using dmem w
    by (simp add: g start date_range_def ffill_def)
  with run' m fobs show ?thesis by blast
qed

section \<open>Runs of the pipelines on concrete streams\<close>

lemma example_observed:
  "id_to_member_mapping example_mac example_render example_stream one_min utc_midnight False =
     Inr [((960000000000, ''d1''), Some ''A''), ((1080000000000, ''d0''), Some ''Z''),
          ((1200000000000, ''d1''), Some ''C'')]"
  by code_simp

lemma example_filled:
  "id_to_member_mapping example_mac example_render example_stream one_min utc_midnight True =
     Inr [((960000000000, ''d1''), Some ''A''), ((1020000000000, ''d1''), Some ''A''),
          ((1080000000000, ''d0''), Some ''Z''), ((1080000000000, ''d1''), Some ''A''),
          ((1140000000000, ''d1''), Some ''A''), ((1200000000000, ''d1''), Some ''C'')]"
  by code_simp

lemma tie_break_run:
  "id_to_member_mapping example_mac example_render
     ([id_line 1100 ''d0'' ''Z''] @ id_line 1000 ''d1'' ''A'' # [id_line 1010 ''d1'' ''B''])
     one_min utc_midnight False =
     Inr [((960000000000, ''d1''), Some ''A''), ((1080000000000, ''d0''), Some ''Z'')]"
  by code_simp

lemma tie_break_records:
  "id_records example_mac example_render
     ([id_line 1100 ''d0'' ''Z''] @ id_line 1000 ''d1'' ''A'' # [id_line 1010 ''d1'' ''B'']) =
     Inr [(1100000000000, ''d0'', ''Z''), (1000000000000, ''d1'', ''A''),
          (1010000000000, ''d1'', ''B'')]"
  by code_simp

lemma day_two_observed:
  "id_to_member_mapping example_mac example_render day_two_stream seven_min utc_midnight False =
     Inr [((0, ''d1''), Some ''A''), ((86520000000000, ''d0''), Some ''Z'')]"
  by code_simp

lemma day_two_filled:
  "id_to_member_mapping example_mac example_render day_two_stream seven_min utc_midnight True =
     Inr [((0, ''d1''), Some ''A''), ((86400000000000, ''d0''), None)]"
  by code_simp

lemma example_voltages:
  "voltages example_render example_parse example_voltage_stream one_min utc_midnight
   = Inr [((960000000000, ''V''), Some 2), ((960000000000, ''W''), Some 4)]"
  by code_simp


lemma example_counts:
  "sample_counts example_render
     [count_line ''proximity received'' 1000 ''alice'' [(''rssi_distances'', JArr [JInt 1, JInt 2, JInt 3])]] False
   = Inr [((1000000000000, [''alice'']), 3)]"
  by code_simp

lemma example_counts_1001:
  "sample_counts example_render
     [count_line ''proximity received'' 1001 ''alice'' [(''rssi_distances'', JArr [JInt 1, JInt 2, JInt 3])]] False
   = Inr [((1001000000000, [''alice'']), 3)]"
  by code_simp

lemma example_counts_twice:
  "sample_counts example_render
     [count_line ''proximity received'' 1000 ''alice'' [(''rssi_distances'', JArr [JInt 1, JInt 2, JInt 3])],
      count_line ''proximity received'' 1000 ''alice'' [(''rssi_distances'', JArr [JInt 1, JInt 2, JInt 3])]] False
   = Inr [((1000000000000, [''alice'']), 3), ((1000000000000, [''alice'']), 3)]"
  by code_simp

lemma example_counts_two:
  "sample_counts example_render
     [count_line ''proximity received'' 2002 ''alice'' [(''rssi_distances'', JArr [JInt 1, JInt 2, JInt 3])],
      count_line ''audio received'' 1001 ''bob'' [(''samples'', JArr [JInt 7])]] True
   = Inr [((1001000000000, [''audio received'', ''bob'']), 1),
          ((2002000000000, [''proximity received'', ''alice'']), 3)]"
  by code_simp

lemma one_min_aligned_utc: "\<forall>a b. one_min dvd (utc_midnight a - utc_midnight b)"
proof (intro allI)
  fix a b
  have "(86400000000000::int) = one_min * 1440" by (simp add: one_min_def)
  then have "one_min dvd utc_midnight t" for t
    unfolding utc_midnight_def by (metis dvd_triv_left mult.assoc)
  then show "one_min dvd (utc_midnight a - utc_midnight b)" by (simp add: dvd_diff)
qed

text \<open>
  The stream of the example: device \<open>d1\<close> is seen at 1000 s and 1010 s (one bin, wearers
  A then B) and at 1200 s, device \<open>d0\<close> at 1100 s. With bins of one minute in UTC the
  bin 1080 s of \<open>d1\<close> is not observed and is filled from 960 s; device \<open>d0\<close> keeps its
  one row.
\<close>

lemma example_gap_filled:
  "\<exists>out (b1::int) m. id_to_member_mapping example_mac example_render example_stream one_min utc_midnight True = Inr out
      \<and> b1 \<le> 1080000000000
      \<and> ((b1, ''d1''), Some m) \<in> set [((960000000000, ''d1''), Some ''A''),
            ((1080000000000, ''d0''), Some ''Z''), ((1200000000000, ''d1''), Some ''C'')]
      \<and> (\<forall>(b'::int) v'. ((b', ''d1''), v') \<in> set [((960000000000, ''d1''), Some ''A''),
            ((1080000000000, ''d0''), Some ''Z''), ((1200000000000, ''d1''), Some ''C'')]
            \<and> b' \<le> 1080000000000 \<longrightarrow> b' \<le> b1)
      \<and> ((1080000000000, ''d1''), Some m) \<in> set out
      \<and> (\<forall>v'. ((1080000000000, ''d1''), v') \<in> set out \<longrightarrow> v' = Some m)"
proof -
  have lo: "((960000000000, ''d1''), Some ''A'') \<in> set [((960000000000, ''d1''), Some ''A''),
            ((1080000000000, ''d0''), Some ''Z''), ((1200000000000, ''d1''), Some ''C'')]"
    by simp
  have hi: "((1200000000000, ''d1''), Some ''C'') \<in> set [((960000000000, ''d1''), Some ''A''),
            ((1080000000000, ''d0''), Some ''Z''), ((1200000000000, ''d1''), Some ''C'')]"
    by simp
  have r1: "(960000000000::int) \<le> 1080000000000" by simp
  have r2: "(1080000000000::int) \<le> 1200000000000" by simp
  have g: "one_min dvd (1080000000000 - 960000000000)" by (simp add: one_min_def)
  show ?thesis
    by (rule fill_gaps_covers_aligned[OF example_observed one_min_aligned_utc lo hi r1 r2 g])
qed

lemma example_single_bin_device:
  "\<exists>out m. id_to_member_mapping example_mac example_render example_stream one_min utc_midnight True = Inr out
      \<and> Some ''Z'' = Some m
      \<and> filter (\<lambda>r. snd (fst r) = ''d0'')
            [((960000000000::int, ''d1''), Some ''A''), ((1080000000000, ''d0''), Some ''Z''),
             ((1200000000000, ''d1''), Some ''C'')] = [((1080000000000, ''d0''), Some m)]
      \<and> filter (\<lambda>r. snd (fst r) = ''d0'') out = [((1080000000000, ''d0''), Some m)]"
proof -
  have row: "((1080000000000, ''d0''), Some ''Z'') \<in> set [((960000000000::int, ''d1''), Some ''A''),
      ((1080000000000, ''d0''), Some ''Z''), ((1200000000000, ''d1''), Some ''C'')]"
    by simp
  have only: "\<forall>b' v'. ((b', ''d0''), v') \<in> set [((960000000000::int, ''d1''), Some ''A''),
      ((1080000000000, ''d0''), Some ''Z''), ((1200000000000, ''d1''), Some ''C'')]
      \<longrightarrow> b' = 1080000000000"
    by simp
  show ?thesis
    by (rule single_bin_device_aligned[OF example_observed one_min_aligned_utc row only])
qed

section \<open>Gap filling on a grid that is not aligned with the days (C1, C9)\<close>

text \<open>
  Claim C1 does not hold of the code. With a bin width of seven minutes in UTC, device
  \<open>d1\<close> seen at 30 s and device \<open>d0\<close> seen at 86580 s, the table without gap filling has
  the row of \<open>d0\<close> in the bin that starts at 86520 s. The gap-filled table has no row
  for \<open>d0\<close> in that bin: the observed bin of the device is not covered.
\<close>

theorem fill_gaps_drops_observed_bin:
  "id_to_member_mapping example_mac example_render day_two_stream seven_min utc_midnight False =
     Inr [((0, ''d1''), Some ''A''), ((86520000000000, ''d0''), Some ''Z'')]
   \<and> id_to_member_mapping example_mac example_render day_two_stream seven_min utc_midnight True =
     Inr [((0, ''d1''), Some ''A''), ((86400000000000, ''d0''), None)]
   \<and> (86520000000000, ''d0'') \<in> set (map fst
        [((0::int, ''d1''), Some ''A''), ((86520000000000, ''d0''), Some ''Z'')])
   \<and> (86520000000000, ''d0'') \<notin> set (map fst
        [((0::int, ''d1''), Some ''A''), ((86400000000000, ''d0''), None)])"
  using day_two_observed day_two_filled by simp

text \<open>
  Claim C9 does not hold of the code. On the same run, device \<open>d0\<close> is seen in exactly
  one bin. Gap filling keeps one row for it, but that row is labelled 86400 s, the
  midnight of the device's first day, and its value is missing: it is filled forward
  from before the device was ever seen.
\<close>

theorem single_bin_device_filled_from_nothing:
  "id_to_member_mapping example_mac example_render day_two_stream seven_min utc_midnight False =
     Inr [((0, ''d1''), Some ''A''), ((86520000000000, ''d0''), Some ''Z'')]
   \<and> device_rows ''d0'' [((0::int, ''d1''), Some ''A''), ((86520000000000, ''d0''), Some ''Z'')]
     = [(86520000000000, Some ''Z'')]
   \<and> id_to_member_mapping example_mac example_render day_two_stream seven_min utc_midnight True =
     Inr [((0, ''d1''), Some ''A''), ((86400000000000, ''d0''), None)]
   \<and> device_rows ''d0'' [((0::int, ''d1''), Some ''A''), ((86400000000000, ''d0''), None :: string option)]
     = [(86400000000000, None)]"
  using day_two_observed day_two_filled by (simp add: device_rows_def)

section \<open>Instances of the statements\<close>

text \<open>
  Device \<open>d0\<close> at 1100 s, then two records of device \<open>d1\<close> in the bin starting at
  960 s, wearers A then B: the table reports A for that bin.
\<close>

theorem first_in_stream_order_witness:
  "((TimeGrouper one_min utc_midnight
        (map fst [(1100000000000::int, ''d0'', ''Z''), (1000000000000, ''d1'', ''A''),
                  (1010000000000, ''d1'', ''B'')]) 1000000000000, ''d1''), Some ''A'')
     \<in> set [((960000000000, ''d1''), Some ''A''), ((1080000000000, ''d0''), Some ''Z'')]
   \<and> readfile_id example_mac example_render (id_line 1010 ''d1'' ''B'') = Inr (JInt 1010, ''d1'', ''B'')
   \<and> TimeGrouper one_min utc_midnight
        (map fst [(1100000000000::int, ''d0'', ''Z''), (1000000000000, ''d1'', ''A''),
                  (1010000000000, ''d1'', ''B'')]) 1010000000000
     = TimeGrouper one_min utc_midnight
        (map fst [(1100000000000::int, ''d0'', ''Z''), (1000000000000, ''d1'', ''A''),
                  (1010000000000, ''d1'', ''B'')]) 1000000000000"
proof -
  have rec: "readfile_id example_mac example_render (id_line 1000 ''d1'' ''A'') = Inr (JInt 1000, ''d1'', ''A'')"
    by code_simp
  have dt: "to_datetime (JInt 1000) = Inr 1000000000000"
    by (simp add: to_datetime_def in_bounds_def)
  have other: "readfile_id example_mac example_render (id_line 1100 ''d0'' ''Z'') = Inr (JInt 1100, ''d0'', ''Z'')"
    by code_simp
  have e: "\<forall>l\<in>set [id_line 1100 ''d0'' ''Z'']. \<forall>ts' d' m' dt'.
        readfile_id example_mac example_render l = Inr (ts', d', m') \<and> to_datetime ts' = Inr dt'
        \<longrightarrow> (TimeGrouper one_min utc_midnight
               (map fst [(1100000000000::int, ''d0'', ''Z''), (1000000000000, ''d1'', ''A''),
                  (1010000000000, ''d1'', ''B'')]) dt', d')
            \<noteq> (TimeGrouper one_min utc_midnight
               (map fst [(1100000000000::int, ''d0'', ''Z''), (1000000000000, ''d1'', ''A''),
                  (1010000000000, ''d1'', ''B'')]) 1000000000000, ''d1'')"
    by (simp add: other)
  have later: "readfile_id example_mac example_render (id_line 1010 ''d1'' ''B'') = Inr (JInt 1010, ''d1'', ''B'')"
    by code_simp
  have same: "TimeGrouper one_min utc_midnight
        (map fst [(1100000000000::int, ''d0'', ''Z''), (1000000000000, ''d1'', ''A''),
                  (1010000000000, ''d1'', ''B'')]) 1010000000000
     = TimeGrouper one_min utc_midnight
        (map fst [(1100000000000::int, ''d0'', ''Z''), (1000000000000, ''d1'', ''A''),
                  (1010000000000, ''d1'', ''B'')]) 1000000000000"
    by code_simp
  from first_in_stream_order[OF tie_break_run tie_break_records rec dt e] later same
  show ?thesis by blast
qed

text \<open>
  The three tables of the example streams: the gap-filled identity table, the table of
  mean voltages, and the table of counts of two records of one member at one instant.
\<close>

theorem tables_sorted_witness:
  "(sorted (map fst [((960000000000::int, ''d1''), Some ''A''), ((1020000000000, ''d1''), Some ''A''),
          ((1080000000000, ''d0''), Some ''Z''), ((1080000000000, ''d1''), Some ''A''),
          ((1140000000000, ''d1''), Some ''A''), ((1200000000000, ''d1''), Some ''C'')])
     \<and> distinct (map fst [((960000000000::int, ''d1''), Some ''A''), ((1020000000000, ''d1''), Some ''A''),
          ((1080000000000, ''d0''), Some ''Z''), ((1080000000000, ''d1''), Some ''A''),
          ((1140000000000, ''d1''), Some ''A''), ((1200000000000, ''d1''), Some ''C'')]))
   \<and> (sorted (map fst [((960000000000::int, ''V''), Some (2::real)), ((960000000000, ''W''), Some 4)])
     \<and> distinct (map fst [((960000000000::int, ''V''), Some (2::real)), ((960000000000, ''W''), Some 4)]))
   \<and> (sorted (map fst [((1000000000000::int, [''alice'']), 3::int), ((1000000000000, [''alice'']), 3)])
     \<and> length [((1000000000000::int, [''alice'']), 3::int), ((1000000000000, [''alice'']), 3)] = length
       [count_line ''proximity received'' 1000 ''alice'' [(''rssi_distances'', JArr [JInt 1, JInt 2, JInt 3])],
        count_line ''proximity received'' 1000 ''alice'' [(''rssi_distances'', JArr [JInt 1, JInt 2, JInt 3])]])"
  using tables_sorted[where mac = example_mac and render = example_render
      and fo_id = example_stream and w = one_min and tz = utc_midnight and fill_gaps = True
      and parse = example_parse and fo_volt = example_voltage_stream
      and fo_cnt = "[count_line ''proximity received'' 1000 ''alice'' [(''rssi_distances'', JArr [JInt 1, JInt 2, JInt 3])],
        count_line ''proximity received'' 1000 ''alice'' [(''rssi_distances'', JArr [JInt 1, JInt 2, JInt 3])]]"
      and keep_type = False]
    example_filled example_voltages example_counts_twice
  by blast

text \<open>
  Against claim C4 as stated: two records of one member at one instant give two rows with
  one key.
\<close>

theorem sample_counts_keys_repeat:
  "sample_counts example_render
     [count_line ''proximity received'' 1000 ''alice'' [(''rssi_distances'', JArr [JInt 1, JInt 2, JInt 3])],
      count_line ''proximity received'' 1000 ''alice'' [(''rssi_distances'', JArr [JInt 1, JInt 2, JInt 3])]] False
   = Inr [((1000000000000, [''alice'']), 3), ((1000000000000, [''alice'']), 3)]
   \<and> \<not> distinct (map fst [((1000000000000::int, [''alice'']), 3::int), ((1000000000000, [''alice'']), 3)])"
  using example_counts_twice by simp

text \<open>
  A record of type \<open>unknown type\<close> with a payload that is not a sequence, after a
  proximity record: the table gains the row of 2000 s with the count \<open>-1\<close>.
\<close>

theorem unknown_type_sentinel_witness:
  "readfile_count example_render (count_line ''unknown type'' 2000 ''bob'' [(''junk'', JNull)])
     = Inr (JInt 2000, str example_render (JStr ''unknown type''), str example_render (JStr ''bob''), - 1)
   \<and> (\<exists>t. sample_counts example_render
          ([count_line ''proximity received'' 1000 ''alice'' [(''rssi_distances'', JArr [JInt 1, JInt 2, JInt 3])]]
            @ count_line ''unknown type'' 2000 ''bob'' [(''junk'', JNull)] # []) False = Inr t
        \<and> mset t = add_mset ((2000000000000, if False then [str example_render (JStr ''unknown type''),
                     str example_render (JStr ''bob'')] else [str example_render (JStr ''bob'')]), - 1)
             (mset [((1000000000000, [''alice'']), 3)]))"
proof -
  let ?data = "JObj [(''timestamp'', JInt 2000), (''member'', JStr ''bob''), (''junk'', JNull)]"
  let ?raw = "JObj [(''type'', JStr ''unknown type''), (''data'', ?data)]"
  have others: "sample_counts example_render
      ([count_line ''proximity received'' 1000 ''alice'' [(''rssi_distances'', JArr [JInt 1, JInt 2, JInt 3])]] @ []) False
      = Inr [((1000000000000, [''alice'']), 3)]"
    using example_counts by simp
  have l: "loads (count_line ''unknown type'' 2000 ''bob'' [(''junk'', JNull)]) = Inr ?raw"
    by (simp add: loads_def count_line_def)
  have d: "getitem ?raw ''data'' = Inr ?data" by (simp add: getitem_def)
  have ty: "getitem ?raw ''type'' = Inr (JStr ''unknown type'')" by (simp add: getitem_def)
  have u1: "JStr ''unknown type'' \<noteq> JStr ''proximity received''" by simp
  have u2: "JStr ''unknown type'' \<noteq> JStr ''audio received''" by simp
  have ts: "getitem ?data ''timestamp'' = Inr (JInt 2000)" by (simp add: getitem_def)
  have dt: "to_datetime (JInt 2000) = Inr 2000000000000"
    by (simp add: to_datetime_def in_bounds_def)
  have m: "getitem ?data ''member'' = Inr (JStr ''bob'')" by (simp add: getitem_def)
  show ?thesis by (rule unknown_type_sentinel[OF others l d ty u1 u2 ts dt m])
qed

text \<open>
  A proximity record without \<open>rssi_distances\<close>, after an audio record that is read
  without error: the run ends with the KeyError of that field.
\<close>

theorem missing_sequence_aborts_witness:
  "readfile_count example_render (count_line ''proximity received'' 1000 ''alice'' [])
     = Inl (KeyError ''rssi_distances'')
   \<and> (\<exists>e. sample_counts example_render
          ([count_line ''audio received'' 900 ''bob'' [(''samples'', JArr [JInt 7])]]
            @ count_line ''proximity received'' 1000 ''alice'' [] # []) False = Inl e)
   \<and> sample_counts example_render
          ([count_line ''audio received'' 900 ''bob'' [(''samples'', JArr [JInt 7])]]
            @ count_line ''proximity received'' 1000 ''alice'' [] # []) False
       = Inl (KeyError ''rssi_distances'')"
proof -
  let ?kvs = "[(''timestamp'', JInt 1000), (''member'', JStr ''alice'')]"
  let ?raw = "JObj [(''type'', JStr ''proximity received''), (''data'', JObj ?kvs)]"
  have l: "loads (count_line ''proximity received'' 1000 ''alice'' []) = Inr ?raw"
    by (simp add: loads_def count_line_def)
  have d: "getitem ?raw ''data'' = Inr (JObj ?kvs)" by (simp add: getitem_def)
  have ty: "getitem ?raw ''type'' = Inr (JStr ''proximity received'')" by (simp add: getitem_def)
  have known: "(JStr ''proximity received'' = JStr ''proximity received'' \<and> ''rssi_distances'' = ''rssi_distances'')
        \<or> (JStr ''proximity received'' = JStr ''audio received'' \<and> ''rssi_distances'' = ''samples'')"
    by simp
  have missing: "map_of ?kvs ''rssi_distances'' = None" by simp
  have pre: "traverse (readfile_count example_render)
      [count_line ''audio received'' 900 ''bob'' [(''samples'', JArr [JInt 7])]]
      = Inr [(JInt 900, ''audio received'', ''bob'', 1)]"
    by code_simp
  from missing_sequence_aborts[OF l d ty known missing,
      of example_render "[count_line ''audio received'' 900 ''bob'' [(''samples'', JArr [JInt 7])]]" "[]" False]
    pre
  show ?thesis by blast
qed

text \<open>
  Against claim C3 as stated: a record at 1001 s is keyed by 1001 s, while the bin of one
  minute that holds it starts at 960 s.
\<close>

theorem sample_counts_not_binned:
  "sample_counts example_render
     [count_line ''proximity received'' 1001 ''alice'' [(''rssi_distances'', JArr [JInt 1, JInt 2, JInt 3])]] False
   = Inr [((1001000000000, [''alice'']), 3)]
   \<and> TimeGrouper one_min utc_midnight [1001000000000] 1001000000000 = 960000000000
   \<and> (1001000000000::int) \<noteq> 960000000000"
  using example_counts_1001
  by (simp add: TimeGrouper_def time_bin_def utc_midnight_def one_min_def)

text \<open>
  Two records of different members, types and counts, the later one first in the stream:
  the table has the row of each record, keyed by its own instant, in ascending order.
\<close>

theorem sample_counts_keyed_by_instant_witness:
  "\<exists>recs.
     list_all2 (\<lambda>line r. \<exists>ts type m cnt dt.
         readfile_count example_render line = Inr (ts, type, m, cnt) \<and> to_datetime ts = Inr dt \<and>
         r = ((dt, if True then [type, m] else [m]), cnt))
       [count_line ''proximity received'' 2002 ''alice'' [(''rssi_distances'', JArr [JInt 1, JInt 2, JInt 3])],
        count_line ''audio received'' 1001 ''bob'' [(''samples'', JArr [JInt 7])]] recs
     \<and> mset [((1001000000000, [''audio received'', ''bob'']), 1),
             ((2002000000000, [''proximity received'', ''alice'']), 3)] = mset recs
     \<and> sorted (map fst [((1001000000000::int, [''audio received'', ''bob'']), 1::int),
             ((2002000000000, [''proximity received'', ''alice'']), 3)])"
  by (rule sample_counts_keyed_by_instant[OF example_counts_two])


end
